theory Spec2Isabelle
  imports Complex_Main
begin

section \<open>Reading model (SensorData.java)\<close>

text \<open>
  The Java class \<open>SensorData\<close> with its two nested classes. A \<open>double\<close> is only
  stored and handed on by the code below, never computed with, so it is carried as a
  real number; a \<open>LocalDateTime\<close> reference may be \<open>null\<close>.
\<close>

type_synonym LocalDateTime = string

record DhtData =
  temperature :: real
  humidity :: real
  dht_timestamp :: "LocalDateTime option"

record GpsData =
  longitude :: real
  latitude :: real
  satellites :: int
  gps_timestamp :: "LocalDateTime option"

record SensorData =
  dhtData :: DhtData
  gpsData :: GpsData

section \<open>Snapshot service (SensorController.java)\<close>

text \<open>
  \<open>mqttService.getLatestData().get()\<close> reads the single-slot cache; the service class
  is not part of the sources, so the content of the slot is the argument of each
  handler: \<open>None\<close> is the Java \<open>null\<close> of a slot that was never written.
  A handler either returns \<open>ResponseEntity.ok(body)\<close> or lets an exception escape.
\<close>

datatype java_exception =
  NullPointerException | IOException | JsonProcessingException | BeansException

datatype 'a ResponseEntity = Ok200 "'a option"

definition getLatestSensorData :: "SensorData option \<Rightarrow> java_exception + SensorData ResponseEntity" where
  "getLatestSensorData latest = Inr (Ok200 latest)"

definition getDhtData :: "SensorData option \<Rightarrow> java_exception + DhtData ResponseEntity" where
  "getDhtData latest =
     (case latest of
        None \<Rightarrow> Inl NullPointerException
      | Some data \<Rightarrow> Inr (Ok200 (Some (dhtData data))))"

definition getGpsData :: "SensorData option \<Rightarrow> java_exception + GpsData ResponseEntity" where
  "getGpsData latest =
     (case latest of
        None \<Rightarrow> Inl NullPointerException
      | Some data \<Rightarrow> Inr (Ok200 (Some (gpsData data))))"

section \<open>Push handler (SensorWebSocketHandler)\<close>

text \<open>
  A \<open>WebSocketSession\<close> belongs to the servlet container. The handler only asks it
  \<open>isOpen()\<close> and calls \<open>sendMessage\<close>, which either hands the text to the peer or
  throws: \<open>sendFails\<close> says which, \<open>delivered\<close> lists what the peer was handed, oldest
  first. Sessions are objects compared by identity, so the registry
  (\<open>CopyOnWriteArraySet\<close>, iterated in insertion order) holds their identities and the
  objects live in \<open>heap\<close>. Every call of the logger appends one entry to \<open>logLines\<close>.

  \<open>ObjectMapper.writeValueAsString\<close> and the bean lookup
  \<open>ApplicationContextProvider.getBean(MqttService.class)\<close> are library and framework
  code: the first is a parameter that returns the text or throws, the second is the
  outcome of the lookup followed by \<open>getLatestData().get()\<close>: an exception, a \<open>null\<close>
  bean, or the content of the cache.
\<close>

type_synonym sid = nat

record WebSocketSession =
  isOpen :: bool
  sendFails :: bool
  delivered :: "string list"

datatype log_entry =
    InfoEstablished sid
  | InfoInitialSent sid nat
  | WarnInitialFailed sid
  | DebugNoInitial sid
  | InfoClosed sid
  | InfoBroadcasting nat nat string
  | DebugSending sid
  | DebugSkipping sid
  | WarnSendFailed sid
  | ErrorSerialize

record handler =
  sessions :: "sid list"
  heap :: "sid \<Rightarrow> WebSocketSession"
  logLines :: "log_entry list"

type_synonym ObjectMapper = "SensorData \<Rightarrow> java_exception + string"

type_synonym bean_lookup = "java_exception + (SensorData option) option"

definition logLine :: "log_entry \<Rightarrow> handler \<Rightarrow> handler" where
  "logLine e h = h\<lparr>logLines := logLines h @ [e]\<rparr>"

definition sendMessage :: "sid \<Rightarrow> string \<Rightarrow> handler \<Rightarrow> java_exception + handler" where
  "sendMessage s payload h =
     (if sendFails (heap h s) then Inl IOException
      else Inr (h\<lparr>heap := (heap h)(s := (heap h s)\<lparr>delivered := delivered (heap h s) @ [payload]\<rparr>)\<rparr>))"

definition add :: "sid list \<Rightarrow> sid \<Rightarrow> sid list" where
  "add xs s = (if s \<in> set xs then xs else xs @ [s])"

definition remove :: "sid list \<Rightarrow> sid \<Rightarrow> sid list" where
  "remove xs s = removeAll s xs"

definition afterConnectionEstablished ::
  "ObjectMapper \<Rightarrow> bean_lookup \<Rightarrow> sid \<Rightarrow> handler \<Rightarrow> handler" where
  "afterConnectionEstablished objectMapper lookup s h =
     (let h1 = logLine (InfoEstablished s) (h\<lparr>sessions := add (sessions h) s\<rparr>) in
      case lookup of
        Inl e \<Rightarrow> logLine (DebugNoInitial s) h1
      | Inr None \<Rightarrow> h1
      | Inr (Some None) \<Rightarrow> h1
      | Inr (Some (Some latest)) \<Rightarrow>
          (case objectMapper latest of
             Inl e \<Rightarrow> logLine (WarnInitialFailed s) h1
           | Inr payload \<Rightarrow>
               (case sendMessage s payload h1 of
                  Inl e \<Rightarrow> logLine (WarnInitialFailed s) h1
                | Inr h2 \<Rightarrow> logLine (InfoInitialSent s (length payload)) h2)))"

definition afterConnectionClosed :: "sid \<Rightarrow> handler \<Rightarrow> handler" where
  "afterConnectionClosed s h = logLine (InfoClosed s) (h\<lparr>sessions := remove (sessions h) s\<rparr>)"

definition sendTo :: "string \<Rightarrow> sid \<Rightarrow> handler \<Rightarrow> handler" where
  "sendTo payload s h =
     (if isOpen (heap h s) then
        (let h1 = logLine (DebugSending s) h in
         case sendMessage s payload h1 of
           Inl e \<Rightarrow> logLine (WarnSendFailed s) h1
         | Inr h2 \<Rightarrow> h2)
      else logLine (DebugSkipping s) h)"

definition broadcastSensorData :: "ObjectMapper \<Rightarrow> SensorData \<Rightarrow> handler \<Rightarrow> handler" where
  "broadcastSensorData objectMapper data h =
     (case objectMapper data of
        Inl e \<Rightarrow> logLine ErrorSerialize h
      | Inr payload \<Rightarrow>
          fold (sendTo payload) (sessions h)
            (logLine (InfoBroadcasting (length (sessions h)) (length payload) payload) h))"

text \<open>
  A concrete handler for the examples: session 1 is open and sends, session 2 is open
  but its send throws, session 3 is registered and no longer open; any other session
  is new. The reading is the one of the spec's scenario A.
\<close>

definition reading0 :: SensorData where
  "reading0 =
     \<lparr>dhtData = \<lparr>temperature = 45 / 2, humidity = 60, dht_timestamp = Some ''T1''\<rparr>,
      gpsData = \<lparr>longitude = - 171 / 25, latitude = 1701 / 50, satellites = 7,
                 gps_timestamp = Some ''T1''\<rparr>\<rparr>"

definition mapper0 :: ObjectMapper where
  "mapper0 d = Inr ''{reading}''"

definition handler0 :: handler where
  "handler0 =
     \<lparr>sessions = [1, 2, 3],
      heap = (\<lambda>_. \<lparr>isOpen = True, sendFails = False, delivered = []\<rparr>)
               (2 := \<lparr>isOpen = True, sendFails = True, delivered = []\<rparr>,
                3 := \<lparr>isOpen = False, sendFails = False, delivered = []\<rparr>),
      logLines = []\<rparr>"

text \<open>
  The entries a call appended to the log, and the entries one iteration of the
  broadcast loop appends for a session.
\<close>

definition newLog :: "handler \<Rightarrow> handler \<Rightarrow> log_entry list" where
  "newLog h h' = drop (length (logLines h)) (logLines h')"

definition sendLog :: "handler \<Rightarrow> sid \<Rightarrow> log_entry list" where
  "sendLog h s =
     (if isOpen (heap h s)
      then DebugSending s # (if sendFails (heap h s) then [WarnSendFailed s] else [])
      else [DebugSkipping s])"

section \<open>Inbound frames (TrackingDashboard.tsx, the onMessage callback)\<close>

text \<open>
  \<open>connectWebSocket\<close> hands the callback the result of \<open>JSON.parse\<close>, typed \<open>any\<close>: a
  JavaScript value. Numbers are only tested against zero and handed on. A parsed
  object is its list of own properties. The callback reads the properties
  \<open>packageId\<close>, \<open>dhtData\<close>, \<open>gpsData\<close>, \<open>temperature\<close>, \<open>humidity\<close>, \<open>latitude\<close>,
  \<open>longitude\<close> and \<open>timestamp\<close>, none of which a string, number, boolean or array has,
  so \<open>getProp\<close> answers \<open>undefined\<close> on them. \<open>member\<close> is \<open>v.k\<close>, which throws on \<open>null\<close>
  and \<open>undefined\<close>; \<open>optMember\<close> is \<open>v?.k\<close>; \<open>coalesce\<close> is \<open>v ?? d\<close>.
\<close>

datatype jsval =
    Undefined
  | Null
  | JBool bool
  | JNum real
  | JStr string
  | JArr "jsval list"
  | JObj "(string \<times> jsval) list"

datatype js_error = TypeError

fun truthy :: "jsval \<Rightarrow> bool" where
  "truthy Undefined = False"
| "truthy Null = False"
| "truthy (JBool b) = b"
| "truthy (JNum x) = (x \<noteq> 0)"
| "truthy (JStr s) = (s \<noteq> [])"
| "truthy (JArr xs) = True"
| "truthy (JObj kvs) = True"

fun nullish :: "jsval \<Rightarrow> bool" where
  "nullish Undefined = True"
| "nullish Null = True"
| "nullish v = False"

fun getProp :: "jsval \<Rightarrow> string \<Rightarrow> jsval" where
  "getProp (JObj kvs) k = (case map_of kvs k of Some v \<Rightarrow> v | None \<Rightarrow> Undefined)"
| "getProp v k = Undefined"

definition member :: "jsval \<Rightarrow> string \<Rightarrow> js_error + jsval" where
  "member v k = (if nullish v then Inl TypeError else Inr (getProp v k))"

definition optMember :: "jsval \<Rightarrow> string \<Rightarrow> jsval" where
  "optMember v k = (if nullish v then Undefined else getProp v k)"

definition coalesce :: "jsval \<Rightarrow> jsval \<Rightarrow> jsval" where
  "coalesce v d = (if nullish v then d else v)"

text \<open>
  The state of the component that the callback writes (\<open>setTrackingData\<close>,
  \<open>setIsLoading\<close>). The fields of \<open>TrackingData\<close> hold whatever the frame carried: the
  cast \<open>as TrackingData\<close> checks nothing at run time.
\<close>

record Coordinates =
  lat :: jsval
  lon :: jsval

record TrackingData =
  temperature :: jsval
  humidity :: jsval
  coordinates :: Coordinates
  timestamp :: jsval
  packageId :: jsval

record dashboard =
  trackingData :: "TrackingData option"
  isLoading :: bool

text \<open>
  The callback, with \<open>selectedPackageId\<close> the identifier the effect was started for and
  \<open>now\<close> the value of \<open>new Date().toISOString()\<close>. An exception inside the \<open>try\<close> block
  is logged and leaves the state as it was.
\<close>

definition transformed :: "string \<Rightarrow> string \<Rightarrow> jsval \<Rightarrow> js_error + TrackingData" where
  "transformed selectedPackageId now msg =
     (case member msg ''dhtData'' of Inl e \<Rightarrow> Inl e | Inr dht \<Rightarrow>
      case member msg ''gpsData'' of Inl e \<Rightarrow> Inl e | Inr gps \<Rightarrow>
      case member msg ''packageId'' of Inl e \<Rightarrow> Inl e | Inr pid \<Rightarrow>
        Inr \<lparr>temperature = coalesce (optMember dht ''temperature'') (JNum 0),
             humidity = coalesce (optMember dht ''humidity'') (JNum 0),
             coordinates =
               \<lparr>lat = coalesce (optMember gps ''latitude'') (JNum 0),
                lon = coalesce (optMember gps ''longitude'') (JNum 0)\<rparr>,
             timestamp = coalesce (optMember dht ''timestamp'') (JStr now),
             packageId = coalesce (coalesce pid (JStr selectedPackageId)) Undefined\<rparr>)"

definition onMessage :: "string \<Rightarrow> string \<Rightarrow> jsval \<Rightarrow> dashboard \<Rightarrow> dashboard" where
  "onMessage selectedPackageId now msg u =
     (if \<not> truthy msg then u
      else case member msg ''packageId'' of
        Inl e \<Rightarrow> u
      | Inr pid \<Rightarrow>
          if truthy pid \<and> pid \<noteq> JStr selectedPackageId then u
          else (case transformed selectedPackageId now msg of
                  Inl e \<Rightarrow> u
                | Inr t \<Rightarrow> u\<lparr>trackingData := Some t, isLoading := False\<rparr>))"

text \<open>
  The vocabulary of the properties below: \<open>field msg a b\<close> is the value of the
  property \<open>b\<close> of the object \<open>msg.a\<close> when the frame has one that is not \<open>null\<close>, and
  \<open>orElse\<close> supplies the substitute otherwise. Then three frames and a component
  state for the examples.
\<close>

definition field :: "jsval \<Rightarrow> string \<Rightarrow> string \<Rightarrow> jsval option" where
  "field msg a b =
     (case msg of
        JObj kvs \<Rightarrow>
          (case map_of kvs a of
             Some (JObj d) \<Rightarrow>
               (case map_of d b of
                  Some v \<Rightarrow> if v = Null \<or> v = Undefined then None else Some v
                | None \<Rightarrow> None)
           | _ \<Rightarrow> None)
      | _ \<Rightarrow> None)"

definition orElse :: "jsval option \<Rightarrow> jsval \<Rightarrow> jsval" where
  "orElse x d = (case x of None \<Rightarrow> d | Some v \<Rightarrow> v)"



definition framePartial :: jsval where
  "framePartial =
     JObj [(''dhtData'', JObj [(''temperature'', JNum (45 / 2))]),
           (''gpsData'', JObj [(''latitude'', Null), (''longitude'', JNum (- 171 / 25))])]"

definition dashboard0 :: dashboard where
  "dashboard0 = \<lparr>trackingData = None, isLoading = True\<rparr>"

section \<open>Reconnect delay (connectWebSocket, scheduleReconnect)\<close>

text \<open>
  \<open>Math.min(30000, 1000 * Math.pow(1.5, reconnectAttempts))\<close>. Powers of \<open>1.5\<close> are
  exact in double precision up to exponent 33 and the cap is reached at exponent 9, so
  the rational value is the value the code computes.
\<close>

definition reconnectDelay :: "nat \<Rightarrow> rat" where
  "reconnectDelay n = min 30000 (1000 * (3 / 2) ^ n)"

section \<open>Client connection (connectWebSocket and the effect of TrackingDashboard.tsx)\<close>

text \<open>
  The browser side is one cooperative state machine: the closures of
  \<open>connectWebSocket\<close> (called handles below: one per call, with the local variables
  \<open>ws\<close>, \<open>shouldReconnect\<close>, \<open>reconnectAttempts\<close>, \<open>reconnectTimer\<close>), the two variables
  \<open>activeHandle\<close> and \<open>attemptedFallback\<close> of the dashboard's effect, the \<open>WebSocket\<close>
  objects, and the pending timers of the event loop. A \<open>WebSocket\<close> knows the closure
  its event handlers belong to. Timer identifiers are positive, as in the browser, so
  the test \<open>if (reconnectTimer)\<close> is a test for a timer having been set. \<open>ctorThrows\<close>
  says for which URLs \<open>new WebSocket(url)\<close> throws. \<open>effects\<close> records, in order, every call
  of \<open>new WebSocket\<close> and of \<open>setTimeout\<close>: what the client attempts and schedules.
\<close>

type_synonym hid = nat

type_synonym wsid = nat

type_synonym tid = nat

datatype readyState = CONNECTING | OPEN | CLOSING | CLOSED

record WebSocket =
  owner :: hid
  target :: string
  readyState :: readyState

record closure =
  url :: string
  ws :: "wsid option"
  shouldReconnect :: bool
  reconnectAttempts :: nat
  reconnectTimer :: "tid option"

datatype callback = Reconnect hid | Fallback

record timer =
  ident :: tid
  due :: rat
  cb :: callback

datatype effect = NewWebSocket hid string | SetTimeout callback rat

record client =
  primaryUrl :: string
  fallbackUrl :: string
  ctorThrows :: "string \<Rightarrow> bool"
  clock :: rat
  handles :: "hid \<Rightarrow> closure"
  nHandles :: nat
  sockets :: "wsid \<Rightarrow> WebSocket"
  nSockets :: nat
  timers :: "timer list"
  nextTimer :: tid
  activeHandle :: "hid option"
  attemptedFallback :: bool
  wsConnected :: bool
  effects :: "effect list"

text \<open>
  The functions of \<open>connectWebSocket\<close>, each for the closure \<open>h\<close>. \<open>socketClose\<close> is the
  method \<open>WebSocket.close()\<close>; the handle's own \<open>close\<close> is the function returned to the
  caller.
\<close>

definition setTimeout :: "callback \<Rightarrow> rat \<Rightarrow> client \<Rightarrow> client" where
  "setTimeout c delay s =
     s\<lparr>timers := timers s @ [\<lparr>ident = nextTimer s, due = clock s + delay, cb = c\<rparr>],
       nextTimer := nextTimer s + 1,
       effects := effects s @ [SetTimeout c delay]\<rparr>"

definition clearTimeout :: "tid \<Rightarrow> client \<Rightarrow> client" where
  "clearTimeout i s = s\<lparr>timers := filter (\<lambda>x. ident x \<noteq> i) (timers s)\<rparr>"

definition scheduleReconnect :: "hid \<Rightarrow> client \<Rightarrow> client" where
  "scheduleReconnect h s =
     (let n = reconnectAttempts (handles s h) + 1;
          s1 = s\<lparr>handles := (handles s)(h := (handles s h)\<lparr>reconnectAttempts := n\<rparr>)\<rparr>;
          s2 = setTimeout (Reconnect h) (reconnectDelay n) s1
      in s2\<lparr>handles := (handles s2)(h := (handles s2 h)\<lparr>reconnectTimer := Some (nextTimer s1)\<rparr>)\<rparr>)"

definition create :: "hid \<Rightarrow> client \<Rightarrow> client" where
  "create h s =
     (let u = url (handles s h);
          s1 = s\<lparr>effects := effects s @ [NewWebSocket h u]\<rparr>
      in if ctorThrows s u then scheduleReconnect h s1
         else s1\<lparr>sockets := (sockets s1)(nSockets s1 :=
                     \<lparr>owner = h, target = u, readyState = CONNECTING\<rparr>),
                 nSockets := nSockets s1 + 1,
                 handles := (handles s1)(h := (handles s1 h)\<lparr>ws := Some (nSockets s1)\<rparr>)\<rparr>)"

definition socketClose :: "wsid \<Rightarrow> client \<Rightarrow> client" where
  "socketClose k s =
     (if readyState (sockets s k) = CLOSED then s
      else s\<lparr>sockets := (sockets s)(k := (sockets s k)\<lparr>readyState := CLOSING\<rparr>)\<rparr>)"

definition close :: "hid \<Rightarrow> client \<Rightarrow> client" where
  "close h s =
     (let s1 = s\<lparr>handles := (handles s)(h := (handles s h)\<lparr>shouldReconnect := False\<rparr>)\<rparr>;
          s2 = (case reconnectTimer (handles s1 h) of
                  None \<Rightarrow> s1
                | Some i \<Rightarrow> if i = 0 then s1 else clearTimeout i s1)
      in case ws (handles s2 h) of
           None \<Rightarrow> s2
         | Some k \<Rightarrow>
             (let s3 = socketClose k s2
              in s3\<lparr>handles := (handles s3)(h := (handles s3 h)\<lparr>ws := None\<rparr>)\<rparr>))"

text \<open>
  The callbacks the dashboard passes to \<open>connectWebSocket\<close>, its \<open>createHandler\<close>, the
  body of the 250 ms fallback timer, the cleanup function of the effect, and the start
  of a selection cycle: \<open>activeHandle = createHandler(primaryUrl)\<close>.
\<close>

definition onOpenCb :: "client \<Rightarrow> client" where
  "onOpenCb s = s\<lparr>wsConnected := True\<rparr>"

definition onCloseCb :: "string \<Rightarrow> client \<Rightarrow> client" where
  "onCloseCb u s =
     (let s1 = s\<lparr>wsConnected := False\<rparr>
      in if \<not> attemptedFallback s1 \<and> u = primaryUrl s1
         then setTimeout Fallback 250 (s1\<lparr>attemptedFallback := True\<rparr>)
         else s1)"

definition ws_onopen :: "hid \<Rightarrow> client \<Rightarrow> client" where
  "ws_onopen h s =
     onOpenCb (s\<lparr>handles := (handles s)(h := (handles s h)\<lparr>reconnectAttempts := 0\<rparr>)\<rparr>)"

definition ws_onclose :: "hid \<Rightarrow> client \<Rightarrow> client" where
  "ws_onclose h s =
     (let s1 = onCloseCb (url (handles s h)) s
      in if shouldReconnect (handles s1 h) then scheduleReconnect h s1 else s1)"

definition ws_onerror :: "hid \<Rightarrow> client \<Rightarrow> client" where
  "ws_onerror h s = (case ws (handles s h) of None \<Rightarrow> s | Some k \<Rightarrow> socketClose k s)"

definition connectWebSocket :: "string \<Rightarrow> client \<Rightarrow> hid \<times> client" where
  "connectWebSocket u s =
     (let h = nHandles s;
          s1 = s\<lparr>handles := (handles s)(h :=
                    \<lparr>url = u, ws = None, shouldReconnect = True,
                     reconnectAttempts = 0, reconnectTimer = None\<rparr>),
                 nHandles := h + 1\<rparr>
      in (h, create h s1))"

definition createHandler :: "string \<Rightarrow> client \<Rightarrow> hid \<times> client" where
  "createHandler u s = connectWebSocket u s"

definition fallbackCb :: "client \<Rightarrow> client" where
  "fallbackCb s =
     (let s1 = (case activeHandle s of None \<Rightarrow> s | Some h \<Rightarrow> close h s);
          (h', s2) = createHandler (fallbackUrl s1) s1
      in s2\<lparr>activeHandle := Some h'\<rparr>)"

definition cleanup :: "client \<Rightarrow> client" where
  "cleanup s =
     (let s1 = (case activeHandle s of None \<Rightarrow> s | Some h \<Rightarrow> close h s)
      in s1\<lparr>wsConnected := False\<rparr>)"

definition start :: "string \<Rightarrow> string \<Rightarrow> (string \<Rightarrow> bool) \<Rightarrow> client" where
  "start p f thr =
     (let s0 = \<lparr>primaryUrl = p, fallbackUrl = f, ctorThrows = thr, clock = 0,
                handles = (\<lambda>_. \<lparr>url = [], ws = None, shouldReconnect = False,
                                 reconnectAttempts = 0, reconnectTimer = None\<rparr>),
                nHandles = 0,
                sockets = (\<lambda>_. \<lparr>owner = 0, target = [], readyState = CLOSED\<rparr>),
                nSockets = 0, timers = [], nextTimer = 1, activeHandle = None,
                attemptedFallback = False, wsConnected = False, effects = []\<rparr>;
          (h, s1) = createHandler p s0
      in s1\<lparr>activeHandle := Some h\<rparr>)"

text \<open>
  The event loop. An event carries the time at which it is delivered; time does not
  run backwards. The transport opens a connecting socket, closes a socket that is not
  yet closed, or reports an error on it; the timer that fires is the pending one that
  is due first (the one set first among equals), and not before it is due; the
  component may be unmounted. An event that cannot happen in a state leaves it as it
  is.
\<close>

fun earliest :: "timer list \<Rightarrow> timer option" where
  "earliest [] = None"
| "earliest (x # xs) =
     (case earliest xs of
        None \<Rightarrow> Some x
      | Some y \<Rightarrow> if due x \<le> due y then Some x else Some y)"

fun runCallback :: "callback \<Rightarrow> client \<Rightarrow> client" where
  "runCallback (Reconnect h) s = create h s"
| "runCallback Fallback s = fallbackCb s"

datatype event = Opened wsid | Closed wsid | Errored wsid | Fired | Cleanup

definition setReadyState :: "wsid \<Rightarrow> readyState \<Rightarrow> client \<Rightarrow> client" where
  "setReadyState k r s = s\<lparr>sockets := (sockets s)(k := (sockets s k)\<lparr>readyState := r\<rparr>)\<rparr>"

fun dispatch :: "event \<Rightarrow> client \<Rightarrow> client" where
  "dispatch (Opened k) s =
     (if k < nSockets s \<and> readyState (sockets s k) = CONNECTING
      then ws_onopen (owner (sockets s k)) (setReadyState k OPEN s) else s)"
| "dispatch (Closed k) s =
     (if k < nSockets s \<and> readyState (sockets s k) \<noteq> CLOSED
      then ws_onclose (owner (sockets s k)) (setReadyState k CLOSED s) else s)"
| "dispatch (Errored k) s =
     (if k < nSockets s \<and> readyState (sockets s k) \<noteq> CLOSED
      then ws_onerror (owner (sockets s k)) s else s)"
| "dispatch Fired s =
     (case earliest (timers s) of
        None \<Rightarrow> s
      | Some x \<Rightarrow>
          if due x \<le> clock s
          then runCallback (cb x) (s\<lparr>timers := filter (\<lambda>y. ident y \<noteq> ident x) (timers s)\<rparr>)
          else s)"
| "dispatch Cleanup s = cleanup s"

definition step :: "rat \<times> event \<Rightarrow> client \<Rightarrow> client" where
  "step te s = (if fst te < clock s then s else dispatch (snd te) (s\<lparr>clock := fst te\<rparr>))"

definition run :: "(rat \<times> event) list \<Rightarrow> client \<Rightarrow> client" where
  "run es s = fold step es s"

definition newEffects :: "client \<Rightarrow> client \<Rightarrow> effect list" where
  "newEffects s s' = drop (length (effects s)) (effects s')"

text \<open>
  Invariants of the client. \<open>wellFormed\<close>: a pending reconnect timer of a closure is the
  one its \<open>reconnectTimer\<close> names, and a closure has either one socket that is not closed
  or at most one pending reconnect timer. \<open>closedHandle\<close>: the closure has been closed and
  has nothing pending; \<open>extends h s s'\<close>: from \<open>s\<close> to \<open>s'\<close> the closure \<open>h\<close> attempted and
  scheduled nothing. The three phases of a selection cycle: on the primary handle,
  with the fallback timer pending, and on the fallback handle. \<open>logged\<close>: what the list
  of effects may hold.
\<close>

definition live :: "client \<Rightarrow> wsid \<Rightarrow> bool" where
  "live s k \<longleftrightarrow> k < nSockets s \<and> readyState (sockets s k) \<noteq> CLOSED"

definition wellFormed :: "client \<Rightarrow> bool" where
  "wellFormed s \<longleftrightarrow>
     0 < nextTimer s
   \<and> (\<forall>x \<in> set (timers s). 0 < ident x \<and> ident x < nextTimer s)
   \<and> (\<forall>x \<in> set (timers s). \<forall>h. cb x = Reconnect h \<longrightarrow>
          h < nHandles s \<and> reconnectTimer (handles s h) = Some (ident x))
   \<and> (\<forall>h i. reconnectTimer (handles s h) = Some i \<longrightarrow> i < nextTimer s)
   \<and> (\<forall>k. live s k \<longrightarrow> owner (sockets s k) < nHandles s
          \<and> (\<forall>x \<in> set (timers s). cb x \<noteq> Reconnect (owner (sockets s k)))
          \<and> (\<forall>k'. live s k' \<and> owner (sockets s k') = owner (sockets s k) \<longrightarrow> k' = k))"

definition idle :: "client \<Rightarrow> hid \<Rightarrow> bool" where
  "idle s h \<longleftrightarrow> (\<forall>x \<in> set (timers s). cb x \<noteq> Reconnect h) \<and> (\<forall>k. live s k \<longrightarrow> owner (sockets s k) \<noteq> h)"

fun effectOf :: "effect \<Rightarrow> hid option" where
  "effectOf (NewWebSocket h u) = Some h"
| "effectOf (SetTimeout (Reconnect h) d) = Some h"
| "effectOf (SetTimeout Fallback d) = None"

definition closedHandle :: "client \<Rightarrow> hid \<Rightarrow> bool" where
  "closedHandle s h \<longleftrightarrow>
     h < nHandles s \<and> \<not> shouldReconnect (handles s h)
     \<and> (\<forall>x \<in> set (timers s). cb x \<noteq> Reconnect h)"

definition extends :: "hid \<Rightarrow> client \<Rightarrow> client \<Rightarrow> bool" where
  "extends h s s' \<longleftrightarrow>
     (\<exists>new. effects s' = effects s @ new \<and> (\<forall>e \<in> set new. effectOf e \<noteq> Some h))
   \<and> nHandles s \<le> nHandles s'
   \<and> (shouldReconnect (handles s' h) \<longrightarrow> shouldReconnect (handles s h))
   \<and> (\<forall>x \<in> set (timers s'). cb x = Reconnect h \<longrightarrow> x \<in> set (timers s))"











text \<open>
  A selection cycle for the examples: the page is served from port 3000 and no
  constructor throws. The primary connection opens at 10 ms and closes at 100 ms; the
  fallback timer fires at 400 ms.
\<close>

definition client0 :: client where
  "client0 = start ''ws://host:3000/ws/sensor'' ''ws://host:8080/ws/sensor'' (\<lambda>_. False)"

definition client1 :: client where
  "client1 = run [(10, Opened 0)] client0"

definition client2 :: client where
  "client2 = run [(10, Opened 0), (100, Closed 0)] client0"

definition client3 :: client where
  "client3 = run [(10, Opened 0), (100, Closed 0), (400, Fired)] client0"


text \<open>
  The same cycle with the component unmounted at 200 ms, while the fallback timer and
  the reconnect timer of the primary handle are pending: the cleanup function calls
  \<open>activeHandle.close()\<close>.
\<close>

definition client2c :: client where
  "client2c = run [(10, Opened 0), (100, Closed 0), (200, Cleanup)] client0"

section \<open>Properties\<close>

lemma pow15_mono: "n \<le> m \<Longrightarrow> ((3::rat) / 2) ^ n \<le> (3 / 2) ^ m"
  by (rule power_increasing) simp_all

lemma reconnectDelay_mono: "n \<le> m \<Longrightarrow> reconnectDelay n \<le> reconnectDelay m"
  unfolding reconnectDelay_def
  using pow15_mono [of n m] by (simp add: min_le_iff_disj)

lemma reconnectDelay_le_cap: "reconnectDelay n \<le> 30000"
  by (simp add: reconnectDelay_def)

lemma reconnectDelay_cap_iff: "reconnectDelay n = 30000 \<longleftrightarrow> 9 \<le> n"
proof
  assume h: "reconnectDelay n = 30000"
  show "9 \<le> n"
  proof (rule ccontr)
    assume "\<not> 9 \<le> n"
    then have "n \<le> 8" by simp
    then have "reconnectDelay n \<le> reconnectDelay 8" by (rule reconnectDelay_mono)
    also have "reconnectDelay 8 < 30000" by (simp add: reconnectDelay_def power_divide)
    finally show False using h by simp
  qed
next
  assume "9 \<le> n"
  then have "reconnectDelay 9 \<le> reconnectDelay n" by (rule reconnectDelay_mono)
  moreover have "reconnectDelay 9 = 30000" by (simp add: reconnectDelay_def power_divide)
  ultimately show "reconnectDelay n = 30000"
    using reconnectDelay_le_cap [of n] by simp
qed

text \<open>
  C1, evaluated on the code: with the cache empty, \<open>GET /api/sensor/latest\<close> answers
  200 with an empty body, while \<open>GET /api/sensor/dht\<close> and \<open>GET /api/sensor/gps\<close> call a
  getter on the absent value and end in a \<open>NullPointerException\<close>.
\<close>

theorem snapshot_empty_cache_dereferences:
  "getLatestSensorData None = Inr (Ok200 None)
   \<and> getDhtData None = Inl NullPointerException
   \<and> getGpsData None = Inl NullPointerException"
  by (simp add: getLatestSensorData_def getDhtData_def getGpsData_def)

text \<open>
  C9: the reconnect delay \<open>min(30000, 1000 * 1.5^attemptCount)\<close> is non-decreasing in
  the attempt count, never exceeds the cap 30000, equals the cap exactly from
  attempt 9 on, and so stays at the cap once it has reached it.
\<close>

theorem reconnectDelay_monotone_until_cap:
  "(\<forall>n m. n \<le> m \<longrightarrow> reconnectDelay n \<le> reconnectDelay m)
   \<and> (\<forall>n. reconnectDelay n \<le> 30000)
   \<and> (\<forall>n. reconnectDelay n = 30000 \<longleftrightarrow> 9 \<le> n)
   \<and> (\<forall>n m. reconnectDelay n = 30000 \<longrightarrow> n \<le> m \<longrightarrow> reconnectDelay m = 30000)"
  using reconnectDelay_mono reconnectDelay_le_cap reconnectDelay_cap_iff
  by (meson order_trans)

theorem reconnectDelay_monotone_until_cap_witness:
  "(1::nat) \<le> 2 \<and> reconnectDelay 1 = 1500 \<and> reconnectDelay 2 = 2250
   \<and> reconnectDelay 1 \<le> reconnectDelay 2
   \<and> reconnectDelay 9 = 30000 \<and> (9::nat) \<le> 12 \<and> reconnectDelay 12 = 30000"
proof -
  have a: "reconnectDelay 1 \<le> reconnectDelay 2"
    using reconnectDelay_monotone_until_cap by simp
  have b: "reconnectDelay 9 = 30000"
    using reconnectDelay_monotone_until_cap by simp
  have c: "reconnectDelay 12 = 30000"
    using reconnectDelay_monotone_until_cap b by (meson numeral_le_iff semiring_norm)
  have d: "reconnectDelay 1 = 1500" "reconnectDelay 2 = 2250"
    by (simp_all add: reconnectDelay_def power_divide)
  show ?thesis using a b c d by simp
qed

lemma sendTo_sessions [simp]: "sessions (sendTo p s h) = sessions h"
  by (simp add: sendTo_def logLine_def sendMessage_def Let_def)

lemma sendTo_isOpen [simp]: "isOpen (heap (sendTo p s h) t) = isOpen (heap h t)"
  by (simp add: sendTo_def logLine_def sendMessage_def Let_def)

lemma sendTo_sendFails [simp]: "sendFails (heap (sendTo p s h) t) = sendFails (heap h t)"
  by (simp add: sendTo_def logLine_def sendMessage_def Let_def)

lemma sendTo_other: "t \<noteq> s \<Longrightarrow> heap (sendTo p s h) t = heap h t"
  by (simp add: sendTo_def logLine_def sendMessage_def Let_def)

lemma sendTo_closed: "\<not> isOpen (heap h t) \<Longrightarrow> heap (sendTo p s h) t = heap h t"
  by (auto simp: sendTo_def logLine_def sendMessage_def Let_def)

lemma sendTo_delivered:
  "delivered (heap (sendTo p s h) s) =
     (if isOpen (heap h s) \<and> \<not> sendFails (heap h s)
      then delivered (heap h s) @ [p] else delivered (heap h s))"
  by (simp add: sendTo_def logLine_def sendMessage_def Let_def)

lemma sendTo_logLines: "logLines (sendTo p s h) = logLines h @ sendLog h s"
  by (simp add: sendTo_def logLine_def sendMessage_def Let_def sendLog_def)

lemma sendLog_sendTo [simp]: "sendLog (sendTo p s h) t = sendLog h t"
  by (simp add: sendLog_def)

lemma fold_sendTo_sessions [simp]: "sessions (fold (sendTo p) xs h) = sessions h"
  by (induction xs arbitrary: h) simp_all

lemma fold_sendTo_isOpen [simp]: "isOpen (heap (fold (sendTo p) xs h) t) = isOpen (heap h t)"
  by (induction xs arbitrary: h) simp_all

lemma fold_sendTo_sendFails [simp]:
  "sendFails (heap (fold (sendTo p) xs h) t) = sendFails (heap h t)"
  by (induction xs arbitrary: h) simp_all

lemma fold_sendTo_notin: "t \<notin> set xs \<Longrightarrow> heap (fold (sendTo p) xs h) t = heap h t"
  by (induction xs arbitrary: h) (simp_all add: sendTo_other)

lemma fold_sendTo_closed: "\<not> isOpen (heap h t) \<Longrightarrow> heap (fold (sendTo p) xs h) t = heap h t"
  by (induction xs arbitrary: h) (simp_all add: sendTo_closed)

lemma fold_sendTo_delivered:
  "distinct xs \<Longrightarrow> t \<in> set xs \<Longrightarrow>
   delivered (heap (fold (sendTo p) xs h) t) =
     (if isOpen (heap h t) \<and> \<not> sendFails (heap h t)
      then delivered (heap h t) @ [p] else delivered (heap h t))"
proof (induction xs arbitrary: h)
  case Nil
  then show ?case by simp
next
  case (Cons x xs)
  show ?case
  proof (cases "t = x")
    case True
    with Cons.prems have "t \<notin> set xs" by simp
    then have "heap (fold (sendTo p) xs (sendTo p x h)) t = heap (sendTo p x h) t"
      by (rule fold_sendTo_notin)
    with True show ?thesis by (simp add: sendTo_delivered)
  next
    case False
    with Cons.prems have "distinct xs" "t \<in> set xs" by simp_all
    from Cons.IH [OF this] False show ?thesis by (simp add: sendTo_other)
  qed
qed

lemma fold_sendTo_logLines:
  "logLines (fold (sendTo p) xs h) = logLines h @ concat (map (sendLog h) xs)"
proof (induction xs arbitrary: h)
  case Nil
  then show ?case by simp
next
  case (Cons x xs)
  have "sendLog (sendTo p x h) = sendLog h" by (rule ext) simp
  with Cons.IH [of "sendTo p x h"] show ?case by (simp add: sendTo_logLines)
qed


lemma broadcast_ok:
  "objectMapper d = Inr p \<Longrightarrow>
   broadcastSensorData objectMapper d h =
     fold (sendTo p) (sessions h) (logLine (InfoBroadcasting (length (sessions h)) (length p) p) h)"
  by (simp add: broadcastSensorData_def)

lemma broadcast_sessions: "sessions (broadcastSensorData objectMapper d h) = sessions h"
  by (simp add: broadcastSensorData_def logLine_def split: sum.split)

lemma broadcast_newLog:
  "objectMapper d = Inr p \<Longrightarrow>
   newLog h (broadcastSensorData objectMapper d h) =
     InfoBroadcasting (length (sessions h)) (length p) p # concat (map (sendLog h) (sessions h))"
proof -
  assume a: "objectMapper d = Inr p"
  let ?h1 = "logLine (InfoBroadcasting (length (sessions h)) (length p) p) h"
  have "sendLog ?h1 = sendLog h" by (rule ext) (simp add: sendLog_def logLine_def)
  then show ?thesis
    using broadcast_ok [of objectMapper d p h] a
    by (simp add: newLog_def fold_sendTo_logLines) (simp add: logLine_def)
qed

lemma broadcast_newLog_fail:
  "objectMapper d = Inl e \<Longrightarrow> newLog h (broadcastSensorData objectMapper d h) = [ErrorSerialize]"
  by (simp add: broadcastSensorData_def newLog_def logLine_def)

lemma broadcast_closed:
  "\<not> isOpen (heap h t) \<Longrightarrow> heap (broadcastSensorData objectMapper d h) t = heap h t"
  by (simp add: broadcastSensorData_def logLine_def fold_sendTo_closed split: sum.split)

lemma broadcast_notin:
  "t \<notin> set (sessions h) \<Longrightarrow> heap (broadcastSensorData objectMapper d h) t = heap h t"
  by (simp add: broadcastSensorData_def logLine_def fold_sendTo_notin split: sum.split)

lemma broadcast_delivered:
  assumes "objectMapper d = Inr p" "distinct (sessions h)" "t \<in> set (sessions h)"
  shows "delivered (heap (broadcastSensorData objectMapper d h) t) =
     (if isOpen (heap h t) \<and> \<not> sendFails (heap h t)
      then delivered (heap h t) @ [p] else delivered (heap h t))"
  using assms(2,3) broadcast_ok [of objectMapper d p h] assms(1)
  by (simp add: fold_sendTo_delivered logLine_def)

lemma in_sendLogs_Warn:
  "(\<exists>x\<in>set xs. WarnSendFailed s \<in> set (sendLog h x)) \<longleftrightarrow>
     s \<in> set xs \<and> isOpen (heap h s) \<and> sendFails (heap h s)"
  by (auto simp: sendLog_def split: if_splits)

lemma in_sendLogs_Sending:
  "(\<exists>x\<in>set xs. DebugSending s \<in> set (sendLog h x)) \<longleftrightarrow> s \<in> set xs \<and> isOpen (heap h s)"
  by (auto simp: sendLog_def split: if_splits)

lemma in_sendLogs_Skipping:
  "(\<exists>x\<in>set xs. DebugSkipping s \<in> set (sendLog h x)) \<longleftrightarrow> s \<in> set xs \<and> \<not> isOpen (heap h s)"
  by (auto simp: sendLog_def split: if_splits)

lemma add_distinct: "distinct xs \<Longrightarrow> distinct (add xs s)"
  by (simp add: add_def)

lemma remove_distinct: "distinct xs \<Longrightarrow> distinct (remove xs s)"
  by (simp add: remove_def distinct_removeAll)

lemma registry_distinct:
  "distinct (sessions h) \<Longrightarrow>
   distinct (sessions (afterConnectionEstablished objectMapper lookup s h))
   \<and> distinct (sessions (afterConnectionClosed s h))
   \<and> distinct (sessions (broadcastSensorData objectMapper d h))"
  by (simp add: afterConnectionEstablished_def afterConnectionClosed_def logLine_def
      sendMessage_def Let_def add_distinct remove_distinct broadcast_sessions
      split: sum.split option.split)

text \<open>
  C3: when the reading serializes to \<open>p\<close>, a broadcast over any registry leaves the
  registry as it was; every registered session that is open and whose own send does
  not throw is handed exactly \<open>p\<close>, whatever the other sessions do; and for every
  registered open session whose send throws, the exception ends in a warning of the
  log (the broadcast returns normally) and the session is still registered.
\<close>

theorem broadcast_isolation:
  assumes "objectMapper d = Inr p" and "distinct (sessions h)"
  shows "sessions (broadcastSensorData objectMapper d h) = sessions h
    \<and> (\<forall>t \<in> set (sessions h). isOpen (heap h t) \<and> \<not> sendFails (heap h t) \<longrightarrow>
          delivered (heap (broadcastSensorData objectMapper d h) t) = delivered (heap h t) @ [p])
    \<and> (\<forall>s \<in> set (sessions h). isOpen (heap h s) \<and> sendFails (heap h s) \<longrightarrow>
          WarnSendFailed s \<in> set (newLog h (broadcastSensorData objectMapper d h))
          \<and> s \<in> set (sessions (broadcastSensorData objectMapper d h)))"
  using assms
  by (simp add: broadcast_sessions broadcast_delivered broadcast_newLog in_sendLogs_Warn)

text \<open>
  C10: a broadcast attempts a send (announced by its debug line) only on registered
  sessions that are open; it changes no session that is not both registered and open;
  a registered session that is not open is handed nothing, is reported by the
  "not open, skipping" debug line whenever the reading serializes, and the registry is
  left as it was.
\<close>

theorem broadcast_skips_closed:
  "sessions (broadcastSensorData objectMapper d h) = sessions h
   \<and> (\<forall>s. DebugSending s \<in> set (newLog h (broadcastSensorData objectMapper d h)) \<longrightarrow>
          s \<in> set (sessions h) \<and> isOpen (heap h s))
   \<and> (\<forall>s. heap (broadcastSensorData objectMapper d h) s \<noteq> heap h s \<longrightarrow>
          s \<in> set (sessions h) \<and> isOpen (heap h s))
   \<and> (\<forall>s \<in> set (sessions h). \<not> isOpen (heap h s) \<longrightarrow>
          heap (broadcastSensorData objectMapper d h) s = heap h s
          \<and> (\<forall>p. objectMapper d = Inr p \<longrightarrow>
                DebugSkipping s \<in> set (newLog h (broadcastSensorData objectMapper d h))))"
proof (cases "objectMapper d")
  case (Inl e)
  then show ?thesis
    using broadcast_closed [of h _ objectMapper d] broadcast_notin [of _ h objectMapper d]
    by (auto simp: broadcast_sessions broadcast_newLog_fail)
next
  case (Inr p)
  then show ?thesis
    using broadcast_closed [of h _ objectMapper d] broadcast_notin [of _ h objectMapper d]
    by (auto simp: broadcast_sessions broadcast_newLog in_sendLogs_Sending in_sendLogs_Skipping)
qed


lemma established_sessions:
  "sessions (afterConnectionEstablished objectMapper lookup s h) = add (sessions h) s"
  by (simp add: afterConnectionEstablished_def logLine_def sendMessage_def Let_def
      split: sum.split option.split)

lemma established_other:
  "t \<noteq> s \<Longrightarrow> heap (afterConnectionEstablished objectMapper lookup s h) t = heap h t"
  by (simp add: afterConnectionEstablished_def logLine_def sendMessage_def Let_def
      split: sum.split option.split)

lemma established_sent:
  "lookup = Inr (Some (Some r)) \<Longrightarrow> objectMapper r = Inr p \<Longrightarrow> \<not> sendFails (heap h s) \<Longrightarrow>
   delivered (heap (afterConnectionEstablished objectMapper lookup s h) s) = delivered (heap h s) @ [p]
   \<and> newLog h (afterConnectionEstablished objectMapper lookup s h)
       = [InfoEstablished s, InfoInitialSent s (length p)]"
  by (simp add: afterConnectionEstablished_def logLine_def sendMessage_def Let_def newLog_def)

lemma established_failed:
  "lookup = Inr (Some (Some r)) \<Longrightarrow> sendFails (heap h s) \<or> (\<exists>e. objectMapper r = Inl e) \<Longrightarrow>
   heap (afterConnectionEstablished objectMapper lookup s h) = heap h
   \<and> newLog h (afterConnectionEstablished objectMapper lookup s h)
       = [InfoEstablished s, WarnInitialFailed s]"
  by (auto simp: afterConnectionEstablished_def logLine_def sendMessage_def Let_def newLog_def
      split: sum.split)

lemma established_empty:
  "lookup = Inr (Some None) \<Longrightarrow>
   heap (afterConnectionEstablished objectMapper lookup s h) = heap h
   \<and> newLog h (afterConnectionEstablished objectMapper lookup s h) = [InfoEstablished s]"
  by (simp add: afterConnectionEstablished_def logLine_def Let_def newLog_def)

text \<open>
  C7: a connecting session is registered in every case and no other session is
  touched. With reading \<open>r\<close> in the cache, serialized as \<open>p\<close>, and a send that does not
  throw, the session is handed \<open>p\<close> after what it had been handed before (nothing, for
  a new session), the log showing registration first and the push second. If the
  serialization or the send throws, a warning is logged, nothing is handed over and
  the session stays registered. With the cache empty nothing is pushed.
\<close>

theorem priming_on_connect:
  "s \<in> set (sessions (afterConnectionEstablished objectMapper lookup s h))
   \<and> (\<forall>t. t \<noteq> s \<longrightarrow> heap (afterConnectionEstablished objectMapper lookup s h) t = heap h t)
   \<and> (\<forall>r p. lookup = Inr (Some (Some r)) \<and> objectMapper r = Inr p \<and> \<not> sendFails (heap h s) \<longrightarrow>
         delivered (heap (afterConnectionEstablished objectMapper lookup s h) s)
           = delivered (heap h s) @ [p]
         \<and> newLog h (afterConnectionEstablished objectMapper lookup s h)
           = [InfoEstablished s, InfoInitialSent s (length p)])
   \<and> (\<forall>r. lookup = Inr (Some (Some r)) \<and> (sendFails (heap h s) \<or> (\<exists>e. objectMapper r = Inl e)) \<longrightarrow>
         heap (afterConnectionEstablished objectMapper lookup s h) = heap h
         \<and> newLog h (afterConnectionEstablished objectMapper lookup s h)
           = [InfoEstablished s, WarnInitialFailed s])
   \<and> (lookup = Inr (Some None) \<longrightarrow>
         heap (afterConnectionEstablished objectMapper lookup s h) = heap h
         \<and> newLog h (afterConnectionEstablished objectMapper lookup s h) = [InfoEstablished s])"
  using established_sent [of lookup _ objectMapper _ h s]
    established_failed [of lookup _ h s objectMapper]
    established_empty [of lookup objectMapper s h]
    established_other [of _ s objectMapper lookup h]
  by (simp add: established_sessions add_def)

theorem broadcast_isolation_witness:
  "mapper0 reading0 = Inr ''{reading}'' \<and> distinct (sessions handler0)
   \<and> 1 \<in> set (sessions handler0) \<and> isOpen (heap handler0 1) \<and> \<not> sendFails (heap handler0 1)
   \<and> 2 \<in> set (sessions handler0) \<and> isOpen (heap handler0 2) \<and> sendFails (heap handler0 2)
   \<and> sessions (broadcastSensorData mapper0 reading0 handler0) = [1, 2, 3]
   \<and> delivered (heap (broadcastSensorData mapper0 reading0 handler0) 1) = [''{reading}'']
   \<and> WarnSendFailed 2 \<in> set (newLog handler0 (broadcastSensorData mapper0 reading0 handler0))"
proof -
  have a: "mapper0 reading0 = Inr ''{reading}''" by (simp add: mapper0_def)
  have b: "distinct (sessions handler0)" by (simp add: handler0_def)
  show ?thesis
    using broadcast_isolation [of mapper0 reading0 "''{reading}''" handler0, OF a b] a
    by (simp add: handler0_def)
qed

theorem broadcast_skips_closed_witness:
  "3 \<in> set (sessions handler0) \<and> \<not> isOpen (heap handler0 3)
   \<and> mapper0 reading0 = Inr ''{reading}''
   \<and> heap (broadcastSensorData mapper0 reading0 handler0) 3 = heap handler0 3
   \<and> DebugSkipping 3 \<in> set (newLog handler0 (broadcastSensorData mapper0 reading0 handler0))
   \<and> DebugSending 3 \<notin> set (newLog handler0 (broadcastSensorData mapper0 reading0 handler0))
   \<and> sessions (broadcastSensorData mapper0 reading0 handler0) = [1, 2, 3]"
proof -
  have a: "mapper0 reading0 = Inr ''{reading}''" by (simp add: mapper0_def)
  show ?thesis
    using broadcast_skips_closed [of mapper0 reading0 handler0] a
    by (auto simp: handler0_def)
qed

theorem priming_on_connect_witness:
  "4 \<in> set (sessions (afterConnectionEstablished mapper0 (Inr (Some (Some reading0))) 4 handler0))
   \<and> delivered (heap (afterConnectionEstablished mapper0 (Inr (Some (Some reading0))) 4 handler0) 4)
       = [''{reading}'']
   \<and> heap (afterConnectionEstablished mapper0 (Inr (Some (Some reading0))) 2 handler0) = heap handler0
   \<and> WarnInitialFailed 2 \<in> set (newLog handler0
        (afterConnectionEstablished mapper0 (Inr (Some (Some reading0))) 2 handler0))
   \<and> 2 \<in> set (sessions (afterConnectionEstablished mapper0 (Inr (Some (Some reading0))) 2 handler0))
   \<and> heap (afterConnectionEstablished mapper0 (Inr (Some None)) 4 handler0) = heap handler0"
proof -
  have a: "mapper0 reading0 = Inr ''{reading}''" by (simp add: mapper0_def)
  have b: "\<not> sendFails (heap handler0 4)" "delivered (heap handler0 4) = []"
    "sendFails (heap handler0 2)"
    by (simp_all add: handler0_def)
  show ?thesis
    using priming_on_connect [of 4 mapper0 "Inr (Some (Some reading0))" handler0]
      priming_on_connect [of 2 mapper0 "Inr (Some (Some reading0))" handler0]
      priming_on_connect [of 4 mapper0 "Inr (Some None)" handler0] a b
    by simp
qed


lemma truthy_not_nullish: "truthy v \<Longrightarrow> \<not> nullish v"
  by (cases v) simp_all

lemma nullish_iff: "nullish v \<longleftrightarrow> v = Undefined \<or> v = Null"
  by (cases v) simp_all

lemma coalesce_field:
  "\<not> nullish msg \<Longrightarrow> coalesce (optMember (getProp msg a) b) d = orElse (field msg a b) d"
  apply (cases msg)
  apply (simp_all add: coalesce_def optMember_def field_def orElse_def)
  apply (auto split: option.splits jsval.splits simp: nullish_iff)
  done


lemma transformed_field:
  "\<not> nullish msg \<Longrightarrow>
   transformed sel now msg =
     Inr \<lparr>temperature = orElse (field msg ''dhtData'' ''temperature'') (JNum 0),
          humidity = orElse (field msg ''dhtData'' ''humidity'') (JNum 0),
          coordinates =
            \<lparr>lat = orElse (field msg ''gpsData'' ''latitude'') (JNum 0),
             lon = orElse (field msg ''gpsData'' ''longitude'') (JNum 0)\<rparr>,
          timestamp = orElse (field msg ''dhtData'' ''timestamp'') (JStr now),
          packageId = (if nullish (getProp msg ''packageId'') then JStr sel
                       else getProp msg ''packageId'')\<rparr>"
  by (simp add: transformed_def member_def coalesce_field) (simp add: coalesce_def)




text \<open>
  C8: every frame that is not empty and passes the identifier filter replaces the
  displayed data by its image in the UI shape: temperature, humidity, latitude and
  longitude are the frame's values, or \<open>0\<close> where the field (or the object holding it)
  is missing or \<open>null\<close>; the timestamp is the frame's \<open>dhtData.timestamp\<close>, or the current
  time where that is missing; the identifier is the frame's, or the selected one.
\<close>

theorem frame_mapping:
  assumes "truthy msg"
    and "\<not> (truthy (getProp msg ''packageId'') \<and> getProp msg ''packageId'' \<noteq> JStr sel)"
  shows "onMessage sel now msg u =
     u\<lparr>trackingData := Some
          \<lparr>temperature = orElse (field msg ''dhtData'' ''temperature'') (JNum 0),
           humidity = orElse (field msg ''dhtData'' ''humidity'') (JNum 0),
           coordinates =
             \<lparr>lat = orElse (field msg ''gpsData'' ''latitude'') (JNum 0),
              lon = orElse (field msg ''gpsData'' ''longitude'') (JNum 0)\<rparr>,
           timestamp = orElse (field msg ''dhtData'' ''timestamp'') (JStr now),
           packageId = (if nullish (getProp msg ''packageId'') then JStr sel
                        else getProp msg ''packageId'')\<rparr>,
       isLoading := False\<rparr>"
  using assms truthy_not_nullish [of msg]
  by (auto simp: onMessage_def member_def transformed_field)

theorem frame_mapping_witness:
  "truthy framePartial
   \<and> \<not> (truthy (getProp framePartial ''packageId'')
         \<and> getProp framePartial ''packageId'' \<noteq> JStr ''PKG-1'')
   \<and> onMessage ''PKG-1'' ''2025-01-01T10:00:05.000Z'' framePartial dashboard0 =
       \<lparr>trackingData = Some
          \<lparr>temperature = JNum (45 / 2), humidity = JNum 0,
           coordinates = \<lparr>lat = JNum 0, lon = JNum (- 171 / 25)\<rparr>,
           timestamp = JStr ''2025-01-01T10:00:05.000Z'',
           packageId = JStr ''PKG-1''\<rparr>,
        isLoading = False\<rparr>"
proof -
  have a: "truthy framePartial" by (simp add: framePartial_def)
  have b: "\<not> (truthy (getProp framePartial ''packageId'')
         \<and> getProp framePartial ''packageId'' \<noteq> JStr ''PKG-1'')"
    by (simp add: framePartial_def)
  show ?thesis
    using frame_mapping [OF a b, of "''2025-01-01T10:00:05.000Z''" dashboard0] a b
    by (simp add: framePartial_def dashboard0_def field_def orElse_def)
qed



lemma wellFormed_clock [simp]: "wellFormed (s\<lparr>clock := t\<rparr>) = wellFormed s"
  by (simp add: wellFormed_def live_def)

lemma wellFormed_wsConnected [simp]: "wellFormed (s\<lparr>wsConnected := b\<rparr>) = wellFormed s"
  by (simp add: wellFormed_def live_def)

lemma wellFormed_attemptedFallback [simp]: "wellFormed (s\<lparr>attemptedFallback := b\<rparr>) = wellFormed s"
  by (simp add: wellFormed_def live_def)

lemma wellFormed_activeHandle [simp]: "wellFormed (s\<lparr>activeHandle := b\<rparr>) = wellFormed s"
  by (simp add: wellFormed_def live_def)

lemma wellFormed_effects [simp]: "wellFormed (s\<lparr>effects := b\<rparr>) = wellFormed s"
  by (simp add: wellFormed_def live_def)

lemma wellFormed_setTimeout_Fallback: "wellFormed s \<Longrightarrow> wellFormed (setTimeout Fallback d s)"
  by (auto simp: wellFormed_def live_def setTimeout_def less_Suc_eq)

lemma wellFormed_scheduleReconnect:
  "wellFormed s \<Longrightarrow> h < nHandles s \<Longrightarrow> idle s h \<Longrightarrow> wellFormed (scheduleReconnect h s)"
  unfolding wellFormed_def idle_def live_def scheduleReconnect_def setTimeout_def Let_def
  by (auto simp: less_Suc_eq)

lemma wellFormed_create: "wellFormed s \<Longrightarrow> h < nHandles s \<Longrightarrow> idle s h \<Longrightarrow> wellFormed (create h s)"
proof -
  assume a: "wellFormed s" "h < nHandles s" "idle s h"
  let ?s1 = "s\<lparr>effects := effects s @ [NewWebSocket h (url (handles s h))]\<rparr>"
  have b: "wellFormed ?s1" "h < nHandles ?s1" "idle ?s1 h"
    using a by (simp_all add: idle_def live_def)
  show ?thesis
  proof (cases "ctorThrows s (url (handles s h))")
    case True
    then show ?thesis
      using wellFormed_scheduleReconnect [OF b] by (simp add: create_def Let_def)
  next
    case False
    have "wellFormed (?s1\<lparr>sockets := (sockets ?s1)(nSockets ?s1 :=
                     \<lparr>owner = h, target = url (handles s h), readyState = CONNECTING\<rparr>),
                 nSockets := nSockets ?s1 + 1,
                 handles := (handles ?s1)(h := (handles ?s1 h)\<lparr>ws := Some (nSockets ?s1)\<rparr>)\<rparr>)"
      using a unfolding wellFormed_def idle_def live_def
      by (auto simp: less_Suc_eq)
    with False show ?thesis by (simp add: create_def Let_def)
  qed
qed

lemma wellFormed_socketClose: "wellFormed s \<Longrightarrow> wellFormed (socketClose k s)"
  unfolding wellFormed_def live_def socketClose_def by auto

lemma wellFormed_clearTimeout: "wellFormed s \<Longrightarrow> wellFormed (clearTimeout i s)"
  unfolding wellFormed_def live_def clearTimeout_def by auto

lemma wellFormed_handles_inert:
  "wellFormed s \<Longrightarrow> reconnectTimer c = reconnectTimer (handles s h) \<Longrightarrow>
   wellFormed (s\<lparr>handles := (handles s)(h := c)\<rparr>)"
  unfolding wellFormed_def live_def by auto

lemma wellFormed_close: "wellFormed s \<Longrightarrow> wellFormed (close h s)"
proof -
  assume a: "wellFormed s"
  let ?s1 = "s\<lparr>handles := (handles s)(h := (handles s h)\<lparr>shouldReconnect := False\<rparr>)\<rparr>"
  let ?s2 = "(case reconnectTimer (handles ?s1 h) of
                  None \<Rightarrow> ?s1
                | Some i \<Rightarrow> if i = 0 then ?s1 else clearTimeout i ?s1)"
  have b: "wellFormed ?s1" using a by (simp add: wellFormed_handles_inert)
  then have c: "wellFormed ?s2" by (simp add: wellFormed_clearTimeout split: option.split)
  show ?thesis
  proof (cases "ws (handles ?s2 h)")
    case None
    then show ?thesis using c by (simp add: close_def Let_def)
  next
    case (Some k)
    let ?s3 = "socketClose k ?s2"
    have "wellFormed ?s3" using c by (rule wellFormed_socketClose)
    then have "wellFormed (?s3\<lparr>handles := (handles ?s3)(h := (handles ?s3 h)\<lparr>ws := None\<rparr>)\<rparr>)"
      by (simp add: wellFormed_handles_inert)
    with Some show ?thesis by (simp add: close_def Let_def)
  qed
qed

lemma earliest_None: "earliest ts = None \<longleftrightarrow> ts = []"
  by (cases ts) (auto split: option.splits)

lemma earliest_mem: "earliest ts = Some x \<Longrightarrow> x \<in> set ts"
  by (induction ts arbitrary: x) (auto split: option.splits if_splits)

lemma earliest_least: "earliest ts = Some x \<Longrightarrow> y \<in> set ts \<Longrightarrow> due x \<le> due y"
  by (induction ts arbitrary: x) (auto split: option.splits if_splits simp: earliest_None)

lemma wellFormed_timer:
  "wellFormed s \<Longrightarrow> x \<in> set (timers s) \<Longrightarrow> cb x = Reconnect h \<Longrightarrow>
   h < nHandles s \<and> reconnectTimer (handles s h) = Some (ident x)"
  unfolding wellFormed_def by blast

lemma wellFormed_live_notimer:
  "wellFormed s \<Longrightarrow> live s k \<Longrightarrow> x \<in> set (timers s) \<Longrightarrow> cb x \<noteq> Reconnect (owner (sockets s k))"
  unfolding wellFormed_def by blast

lemma wellFormed_setReadyState_OPEN:
  "wellFormed s \<Longrightarrow> live s k \<Longrightarrow> wellFormed (setReadyState k OPEN s)"
  unfolding wellFormed_def live_def setReadyState_def by auto

lemma wellFormed_setReadyState_CLOSED: "wellFormed s \<Longrightarrow> wellFormed (setReadyState k CLOSED s)"
  unfolding wellFormed_def live_def setReadyState_def by auto

lemma idle_setReadyState_CLOSED:
  "wellFormed s \<Longrightarrow> live s k \<Longrightarrow> idle (setReadyState k CLOSED s) (owner (sockets s k))"
  unfolding wellFormed_def live_def setReadyState_def idle_def by auto

lemma owner_bound: "wellFormed s \<Longrightarrow> live s k \<Longrightarrow> owner (sockets s k) < nHandles s"
  unfolding wellFormed_def by blast

lemma wellFormed_ws_onopen: "wellFormed s \<Longrightarrow> wellFormed (ws_onopen h s)"
  by (simp add: ws_onopen_def onOpenCb_def wellFormed_handles_inert)

lemma wellFormed_onCloseCb: "wellFormed s \<Longrightarrow> wellFormed (onCloseCb u s)"
  by (simp add: onCloseCb_def Let_def wellFormed_setTimeout_Fallback)

lemma idle_onCloseCb: "idle s h \<Longrightarrow> idle (onCloseCb u s) h"
  by (auto simp: onCloseCb_def Let_def setTimeout_def idle_def live_def)

lemma nHandles_onCloseCb [simp]: "nHandles (onCloseCb u s) = nHandles s"
  by (simp add: onCloseCb_def Let_def setTimeout_def)

lemma wellFormed_ws_onclose: "wellFormed s \<Longrightarrow> h < nHandles s \<Longrightarrow> idle s h \<Longrightarrow> wellFormed (ws_onclose h s)"
  by (simp add: ws_onclose_def Let_def wellFormed_onCloseCb idle_onCloseCb wellFormed_scheduleReconnect)

lemma wellFormed_ws_onerror: "wellFormed s \<Longrightarrow> wellFormed (ws_onerror h s)"
  by (simp add: ws_onerror_def wellFormed_socketClose split: option.split)

lemma wellFormed_connectWebSocket: "wellFormed s \<Longrightarrow> wellFormed (snd (connectWebSocket u s))"
proof -
  assume a: "wellFormed s"
  let ?h = "nHandles s"
  let ?s1 = "s\<lparr>handles := (handles s)(?h :=
                    \<lparr>url = u, ws = None, shouldReconnect = True,
                     reconnectAttempts = 0, reconnectTimer = None\<rparr>),
                 nHandles := ?h + 1\<rparr>"
  have "wellFormed ?s1" "?h < nHandles ?s1" "idle ?s1 ?h"
    using a unfolding wellFormed_def live_def idle_def by (auto simp: less_Suc_eq)
  then have "wellFormed (create ?h ?s1)" by (rule wellFormed_create)
  then show ?thesis by (simp add: connectWebSocket_def Let_def)
qed

lemma wellFormed_fallbackCb: "wellFormed s \<Longrightarrow> wellFormed (fallbackCb s)"
  using wellFormed_connectWebSocket [of "case activeHandle s of None \<Rightarrow> s | Some h \<Rightarrow> close h s"]
  by (simp add: fallbackCb_def createHandler_def Let_def wellFormed_close split_beta split: option.split)

lemma wellFormed_cleanup: "wellFormed s \<Longrightarrow> wellFormed (cleanup s)"
  by (simp add: cleanup_def Let_def wellFormed_close split: option.split)

lemma wellFormed_fired:
  assumes "wellFormed s" "x \<in> set (timers s)"
  shows "wellFormed (runCallback (cb x) (s\<lparr>timers := filter (\<lambda>y. ident y \<noteq> ident x) (timers s)\<rparr>))"
proof -
  let ?s1 = "s\<lparr>timers := filter (\<lambda>y. ident y \<noteq> ident x) (timers s)\<rparr>"
  have w: "wellFormed ?s1" using assms(1) unfolding wellFormed_def live_def by auto
  show ?thesis
  proof (cases "cb x")
    case (Reconnect h)
    have t: "h < nHandles s" "reconnectTimer (handles s h) = Some (ident x)"
      using wellFormed_timer [OF assms Reconnect] by simp_all
    have r: "ident y = ident x" if "y \<in> set (timers s)" "cb y = Reconnect h" for y
      using wellFormed_timer [OF assms(1) that] t by simp
    have l: "owner (sockets s k) \<noteq> h" if "live s k" for k
      using wellFormed_live_notimer [OF assms(1) that assms(2)] Reconnect by auto
    have "h < nHandles ?s1" "idle ?s1 h"
      using t(1) r l unfolding idle_def live_def by auto
    with w have "wellFormed (create h ?s1)" by (rule wellFormed_create)
    with Reconnect show ?thesis by simp
  next
    case Fallback
    with w show ?thesis by (simp add: wellFormed_fallbackCb)
  qed
qed

lemma wellFormed_dispatch: "wellFormed s \<Longrightarrow> wellFormed (dispatch e s)"
proof (cases e)
  case (Opened k)
  assume "wellFormed s"
  then show ?thesis using Opened
    by (simp add: wellFormed_ws_onopen wellFormed_setReadyState_OPEN live_def)
next
  case (Closed k)
  assume a: "wellFormed s"
  show ?thesis
  proof (cases "live s k")
    case True
    have "wellFormed (ws_onclose (owner (sockets s k)) (setReadyState k CLOSED s))"
      using a True owner_bound [OF a True]
      by (intro wellFormed_ws_onclose wellFormed_setReadyState_CLOSED idle_setReadyState_CLOSED)
        (simp_all add: setReadyState_def)
    with True Closed show ?thesis unfolding live_def by simp
  next
    case False
    with a Closed show ?thesis unfolding live_def by auto
  qed
next
  case (Errored k)
  assume "wellFormed s"
  then show ?thesis using Errored by (simp add: wellFormed_ws_onerror)
next
  case Fired
  assume "wellFormed s"
  then show ?thesis using Fired
    by (auto simp: wellFormed_fired earliest_mem split: option.split)
next
  case Cleanup
  assume "wellFormed s"
  then show ?thesis using Cleanup by (simp add: wellFormed_cleanup)
qed

lemma wellFormed_step: "wellFormed s \<Longrightarrow> wellFormed (step te s)"
  by (simp add: step_def wellFormed_dispatch)

lemma wellFormed_run: "wellFormed s \<Longrightarrow> wellFormed (run es s)"
  unfolding run_def by (induction es arbitrary: s) (simp_all add: wellFormed_step)

lemma wellFormed_start: "wellFormed (start p f thr)"
proof -
  let ?s0 = "\<lparr>primaryUrl = p, fallbackUrl = f, ctorThrows = thr, clock = 0,
                handles = (\<lambda>_. \<lparr>url = [], ws = None, shouldReconnect = False,
                                 reconnectAttempts = 0, reconnectTimer = None\<rparr>),
                nHandles = 0,
                sockets = (\<lambda>_. \<lparr>owner = 0, target = [], readyState = CLOSED\<rparr>),
                nSockets = 0, timers = [], nextTimer = 1, activeHandle = None,
                attemptedFallback = False, wsConnected = False, effects = []\<rparr>"
  have "wellFormed ?s0" by (simp add: wellFormed_def live_def)
  then have "wellFormed (snd (connectWebSocket p ?s0))" by (rule wellFormed_connectWebSocket)
  then show ?thesis by (simp add: start_def createHandler_def Let_def split_beta)
qed

lemma extends_refl: "extends h s s"
  by (simp add: extends_def)

lemma extends_trans: "extends h s s1 \<Longrightarrow> extends h s1 s2 \<Longrightarrow> extends h s s2"
  unfolding extends_def by (elim conjE exE) (auto simp: ball_Un)

lemma extends_closedHandle: "closedHandle s h \<Longrightarrow> extends h s s' \<Longrightarrow> closedHandle s' h"
  unfolding extends_def closedHandle_def by auto

lemma extends_newEffects:
  "extends h s s' \<Longrightarrow> \<forall>e \<in> set (newEffects s s'). effectOf e \<noteq> Some h"
  unfolding extends_def newEffects_def by auto

lemma extends_clock: "extends h s (s\<lparr>clock := t\<rparr>)"
  by (simp add: extends_def)

lemma extends_setTimeout_Fallback: "extends h s (setTimeout Fallback d s)"
  by (simp add: extends_def setTimeout_def)

lemma extends_scheduleReconnect: "h' \<noteq> h \<Longrightarrow> extends h s (scheduleReconnect h' s)"
  by (simp add: extends_def scheduleReconnect_def setTimeout_def Let_def)

lemma extends_create: "h' \<noteq> h \<Longrightarrow> extends h s (create h' s)"
  by (simp add: extends_def create_def scheduleReconnect_def setTimeout_def Let_def)

lemma extends_socketClose: "extends h s (socketClose k s)"
  by (simp add: extends_def socketClose_def)

lemma extends_close: "extends h s (close h' s)"
  by (auto simp: extends_def close_def clearTimeout_def socketClose_def Let_def split: option.split)

lemma extends_ws_onopen: "extends h s (ws_onopen h' s)"
  by (simp add: extends_def ws_onopen_def onOpenCb_def)

lemma extends_onCloseCb: "extends h s (onCloseCb u s)"
  by (simp add: extends_def onCloseCb_def setTimeout_def Let_def)

lemma extends_ws_onclose:
  "h' \<noteq> h \<or> \<not> shouldReconnect (handles s h) \<Longrightarrow> extends h s (ws_onclose h' s)"
  by (auto simp: extends_def ws_onclose_def onCloseCb_def scheduleReconnect_def setTimeout_def Let_def)

lemma extends_ws_onerror: "extends h s (ws_onerror h' s)"
  by (simp add: ws_onerror_def extends_refl extends_socketClose split: option.split)

lemma extends_connectWebSocket: "h < nHandles s \<Longrightarrow> extends h s (snd (connectWebSocket u s))"
  by (simp add: extends_def connectWebSocket_def create_def scheduleReconnect_def setTimeout_def Let_def)

lemma extends_setReadyState: "extends h s (setReadyState k r s)"
  by (simp add: extends_def setReadyState_def)

lemma extends_cleanup: "extends h s (cleanup s)"
proof -
  have "extends h s (case activeHandle s of None \<Rightarrow> s | Some h' \<Rightarrow> close h' s)"
    by (simp add: extends_refl extends_close split: option.split)
  then show ?thesis by (simp add: cleanup_def Let_def extends_def)
qed

lemma extends_fallbackCb: "h < nHandles s \<Longrightarrow> extends h s (fallbackCb s)"
proof -
  assume a: "h < nHandles s"
  let ?s1 = "case activeHandle s of None \<Rightarrow> s | Some h' \<Rightarrow> close h' s"
  have b: "extends h s ?s1" by (simp add: extends_refl extends_close split: option.split)
  then have "h < nHandles ?s1" using a unfolding extends_def by simp
  then have "extends h ?s1 (snd (connectWebSocket (fallbackUrl ?s1) ?s1))"
    by (rule extends_connectWebSocket)
  with b have "extends h s (snd (connectWebSocket (fallbackUrl ?s1) ?s1))" by (rule extends_trans)
  then show ?thesis by (simp add: fallbackCb_def createHandler_def Let_def split_beta extends_def)
qed

lemma extends_dispatch: "closedHandle s h \<Longrightarrow> extends h s (dispatch e s)"
proof (cases e)
  case (Opened k)
  show ?thesis using Opened
    by (auto intro: extends_trans [OF extends_setReadyState extends_ws_onopen] simp: extends_refl)
next
  case (Closed k)
  assume a: "closedHandle s h"
  have "extends h (setReadyState k CLOSED s) (ws_onclose (owner (sockets s k)) (setReadyState k CLOSED s))"
    using a by (intro extends_ws_onclose) (simp add: closedHandle_def setReadyState_def)
  then have "extends h s (ws_onclose (owner (sockets s k)) (setReadyState k CLOSED s))"
    by (rule extends_trans [OF extends_setReadyState])
  then show ?thesis using Closed by (simp add: extends_refl)
next
  case (Errored k)
  show ?thesis using Errored by (simp add: extends_refl extends_ws_onerror)
next
  case Fired
  assume a: "closedHandle s h"
  show ?thesis
  proof (cases "earliest (timers s)")
    case None
    with Fired show ?thesis by (simp add: extends_refl)
  next
    case (Some x)
    let ?s1 = "s\<lparr>timers := filter (\<lambda>y. ident y \<noteq> ident x) (timers s)\<rparr>"
    have x: "x \<in> set (timers s)" using Some by (rule earliest_mem)
    have b: "extends h s ?s1" by (simp add: extends_def)
    have "extends h ?s1 (runCallback (cb x) ?s1)"
    proof (cases "cb x")
      case (Reconnect h')
      with a x have "h' \<noteq> h" by (auto simp: closedHandle_def)
      with Reconnect show ?thesis by (simp add: extends_create)
    next
      case Fallback
      have "h < nHandles ?s1" using a by (simp add: closedHandle_def)
      with Fallback show ?thesis by (simp add: extends_fallbackCb)
    qed
    with b have "extends h s (runCallback (cb x) ?s1)" by (rule extends_trans)
    with Fired Some show ?thesis by (simp add: extends_refl)
  qed
next
  case Cleanup
  show ?thesis using Cleanup by (simp add: extends_cleanup)
qed

lemma closedHandle_clock: "closedHandle (s\<lparr>clock := t\<rparr>) h = closedHandle s h"
  by (simp add: closedHandle_def)

lemma extends_step: "closedHandle s h \<Longrightarrow> extends h s (step te s)"
proof -
  assume a: "closedHandle s h"
  then have "closedHandle (s\<lparr>clock := fst te\<rparr>) h" by (simp add: closedHandle_clock)
  then have "extends h (s\<lparr>clock := fst te\<rparr>) (dispatch (snd te) (s\<lparr>clock := fst te\<rparr>))"
    by (rule extends_dispatch)
  then have "extends h s (dispatch (snd te) (s\<lparr>clock := fst te\<rparr>))"
    by (rule extends_trans [OF extends_clock])
  then show ?thesis by (simp add: step_def extends_refl)
qed

lemma extends_run: "closedHandle s h \<Longrightarrow> extends h s (run es s)"
proof (induction es arbitrary: s)
  case Nil
  then show ?case by (simp add: run_def extends_refl)
next
  case (Cons te es)
  have a: "extends h s (step te s)" using Cons.prems by (rule extends_step)
  then have "closedHandle (step te s) h" using Cons.prems extends_closedHandle by blast
  then have "extends h (step te s) (run es (step te s))" by (rule Cons.IH)
  with a have "extends h s (run es (step te s))" by (rule extends_trans)
  then show ?case by (simp add: run_def)
qed

lemma close_closedHandle: "wellFormed s \<Longrightarrow> h < nHandles s \<Longrightarrow> closedHandle (close h s) h"
proof -
  assume a: "wellFormed s" "h < nHandles s"
  have "cb x \<noteq> Reconnect h" if "x \<in> set (timers (close h s))" for x
  proof
    assume c: "cb x = Reconnect h"
    have m: "x \<in> set (timers s)"
      using that by (auto simp: close_def clearTimeout_def socketClose_def Let_def
          split: option.splits if_splits)
    from wellFormed_timer [OF a(1) m c] have r: "reconnectTimer (handles s h) = Some (ident x)" by simp
    have "0 < ident x" using a(1) m unfolding wellFormed_def by blast
    with r that show False
      by (auto simp: close_def clearTimeout_def socketClose_def Let_def split: option.splits if_splits)
  qed
  moreover have "\<not> shouldReconnect (handles (close h s) h)" "nHandles (close h s) = nHandles s"
    by (auto simp: close_def clearTimeout_def socketClose_def Let_def split: option.splits)
  ultimately show ?thesis using a(2) by (simp add: closedHandle_def)
qed

lemma close_effects: "effects (close h s) = effects s"
  by (auto simp: close_def clearTimeout_def socketClose_def Let_def split: option.splits)

lemma closure_swap:
  "c\<lparr>ws := None, shouldReconnect := False\<rparr> = c\<lparr>shouldReconnect := False, ws := None\<rparr>"
  by (cases c) simp

lemma close_idem: "close h (close h s) = close h s"
  by (cases s)
    (auto simp: close_def clearTimeout_def socketClose_def Let_def closure_swap split: option.splits)

text \<open>
  The handle's own part of an explicit close. In any state a selection cycle can
  reach, \<open>close()\<close> on a handle cancels the reconnect timer of that handle if one is
  pending and itself attempts and schedules nothing; after it, whatever events follow,
  that handle never creates a transport and never schedules a reconnect, and no
  reconnect timer of it is ever pending again; a second \<open>close()\<close> changes nothing.
  Other handles, and the dashboard's fallback timer, are not covered.
\<close>

theorem close_stops_reconnect:
  assumes "s = run es0 (start p f thr)" and "h < nHandles s"
  shows "(\<forall>x \<in> set (timers (close h s)). cb x \<noteq> Reconnect h)
       \<and> newEffects s (close h s) = []
       \<and> (\<forall>es. \<forall>e \<in> set (newEffects (close h s) (run es (close h s))). effectOf e \<noteq> Some h)
       \<and> (\<forall>es. \<forall>x \<in> set (timers (run es (close h s))). cb x \<noteq> Reconnect h)
       \<and> close h (close h s) = close h s"
proof -
  have w: "wellFormed s" using assms(1) by (simp add: wellFormed_run wellFormed_start)
  have c: "closedHandle (close h s) h" using w assms(2) by (rule close_closedHandle)
  have e: "extends h (close h s) (run es (close h s))" for es using c by (rule extends_run)
  have "closedHandle (run es (close h s)) h" for es using c e by (rule extends_closedHandle)
  then show ?thesis
    using c extends_newEffects [OF e]
    by (simp add: closedHandle_def close_idem newEffects_def close_effects)
qed

lemmas run_defs = client0_def start_def createHandler_def connectWebSocket_def create_def run_def step_def
  ws_onopen_def ws_onclose_def ws_onerror_def onOpenCb_def onCloseCb_def setReadyState_def
  scheduleReconnect_def setTimeout_def clearTimeout_def close_def socketClose_def fallbackCb_def
  cleanup_def Let_def newEffects_def

lemma reconnectDelay_1: "reconnectDelay (Suc 0) = 1500"
  by (simp add: reconnectDelay_def)

text \<open>
  C2 as stated fails: after a fresh open the attempt count is 0, and the close that
  follows schedules the reconnect after 1500 ms, not after the 1000 ms that the count
  0 would give, because \<open>scheduleReconnect\<close> increments the count before it computes the
  delay.
\<close>

theorem reconnect_delay_counterexample:
  "reconnectAttempts (handles (run [(10, Opened 0)] client0) 0) = 0
   \<and> reconnectDelay 0 = 1000
   \<and> newEffects (run [(10, Opened 0)] client0) (step (100, Closed 0) (run [(10, Opened 0)] client0))
       = [SetTimeout Fallback 250, SetTimeout (Reconnect 0) 1500]
   \<and> reconnectAttempts (handles (step (100, Closed 0) (run [(10, Opened 0)] client0)) 0) = 1"
  by (simp add: run_defs reconnectDelay_def)

text \<open>
  C2, amended: on any close of a transport whose handle has not been closed (primary
  or fallback), the attempt count is incremented first and a reconnect is then
  scheduled after \<open>min(30000, 1000 * 1.5^n)\<close> ms with \<open>n\<close> the incremented count; it is the
  last thing the close schedules, after the fallback timer if that is set too. An
  open resets the count to 0, so the first reconnect after a fresh open is scheduled
  after 1500 ms.
\<close>

theorem reconnect_on_close:
  assumes "k < nSockets s" and "readyState (sockets s k) \<noteq> CLOSED" and "clock s \<le> t"
    and "shouldReconnect (handles s (owner (sockets s k)))"
  shows "reconnectAttempts (handles (step (t, Closed k) s) (owner (sockets s k)))
           = reconnectAttempts (handles s (owner (sockets s k))) + 1
       \<and> newEffects s (step (t, Closed k) s)
           = (if \<not> attemptedFallback s \<and> url (handles s (owner (sockets s k))) = primaryUrl s
              then [SetTimeout Fallback 250] else [])
             @ [SetTimeout (Reconnect (owner (sockets s k)))
                  (reconnectDelay (reconnectAttempts (handles s (owner (sockets s k))) + 1))]
       \<and> (\<exists>x \<in> set (timers (step (t, Closed k) s)).
             cb x = Reconnect (owner (sockets s k))
             \<and> due x = t + reconnectDelay (reconnectAttempts (handles s (owner (sockets s k))) + 1))
       \<and> (reconnectAttempts (handles s (owner (sockets s k))) = 0 \<longrightarrow>
             reconnectDelay (reconnectAttempts (handles s (owner (sockets s k))) + 1) = 1500)
       \<and> (\<forall>j. j < nSockets s \<and> readyState (sockets s j) = CONNECTING \<longrightarrow>
             reconnectAttempts (handles (step (t, Opened j) s) (owner (sockets s j))) = 0)"
  using assms
  by (auto simp: step_def ws_onclose_def ws_onopen_def onOpenCb_def onCloseCb_def
      scheduleReconnect_def setTimeout_def setReadyState_def Let_def newEffects_def reconnectDelay_1)









































































lemmas client_defs = client1_def client2_def client3_def run_defs reconnectDelay_def

theorem reconnect_on_close_witness:
  "0 < nSockets client1 \<and> readyState (sockets client1 0) \<noteq> CLOSED \<and> clock client1 \<le> 100
   \<and> shouldReconnect (handles client1 (owner (sockets client1 0)))
   \<and> reconnectAttempts (handles client1 0) = 0
   \<and> reconnectAttempts (handles (step (100, Closed 0) client1) 0) = 1
   \<and> newEffects client1 (step (100, Closed 0) client1)
       = [SetTimeout Fallback 250, SetTimeout (Reconnect 0) 1500]"
proof -
  have h: "0 < nSockets client1" "readyState (sockets client1 0) \<noteq> CLOSED" "clock client1 \<le> 100"
    "shouldReconnect (handles client1 (owner (sockets client1 0)))"
    by (simp_all add: client_defs)
  have f: "owner (sockets client1 0) = 0" "reconnectAttempts (handles client1 0) = 0"
    "\<not> attemptedFallback client1" "url (handles client1 0) = primaryUrl client1"
    by (simp_all add: client_defs)
  from reconnect_on_close [OF h] f h show ?thesis
    by (simp add: reconnectDelay_1)
qed


theorem close_stops_reconnect_witness:
  "0 < nHandles client2
   \<and> Reconnect 0 \<in> set (map cb (timers client2))
   \<and> Reconnect 0 \<notin> set (map cb (timers (close 0 client2)))
   \<and> newEffects client2 (close 0 client2) = []
   \<and> Some 0 \<notin> set (map effectOf (newEffects (close 0 client2)
         (run [(400, Fired), (500, Closed 1), (2100, Fired)] (close 0 client2))))
   \<and> Reconnect 0 \<notin> set (map cb (timers
         (run [(400, Fired), (500, Closed 1), (2100, Fired)] (close 0 client2))))
   \<and> close 0 (close 0 client2) = close 0 client2"
proof -
  let ?p = "''ws://host:3000/ws/sensor''" and ?f = "''ws://host:8080/ws/sensor''"
  have r2: "client2 = run [(10, Opened 0), (100, Closed 0)] (start ?p ?f (\<lambda>_. False))"
    by (simp add: client2_def client0_def)
  have h: "0 < nHandles client2" "Reconnect 0 \<in> set (map cb (timers client2))"
    by (simp_all add: client_defs)
  let ?es = "[(400, Fired), (500, Closed 1), (2100, Fired)]"
  from close_stops_reconnect [OF r2 h(1)]
  have a: "\<forall>x \<in> set (timers (close 0 client2)). cb x \<noteq> Reconnect 0"
    and b: "newEffects client2 (close 0 client2) = []"
    and c: "\<forall>e \<in> set (newEffects (close 0 client2) (run ?es (close 0 client2))).
              effectOf e \<noteq> Some 0"
    and d: "\<forall>x \<in> set (timers (run ?es (close 0 client2))). cb x \<noteq> Reconnect 0"
    and e: "close 0 (close 0 client2) = close 0 client2"
    by blast+
  from a b c d e h show ?thesis by auto
qed

text \<open>
  C5, evaluated on the code: the primary transport opens at 10 ms and closes at 100 ms,
  so that the reconnect timer of the primary handle is pending, and \<open>close()\<close> is called
  on that handle, directly or by the cleanup function at 200 ms. The call cancels the
  reconnect timer of the handle, but the dashboard's 250 ms fallback timer stays
  pending: when it fires, a new transport is created for the fallback URL, and when
  that transport closes, a reconnect is scheduled and a further transport created.
\<close>

theorem explicit_close_then_fallback_connects:
  "activeHandle client2 = Some 0
   \<and> Reconnect 0 \<in> set (map cb (timers client2))
   \<and> Reconnect 0 \<notin> set (map cb (timers (close 0 client2)))
   \<and> Fallback \<in> set (map cb (timers (close 0 client2)))
   \<and> newEffects (close 0 client2)
         (run [(400, Fired), (500, Closed 1), (2100, Fired)] (close 0 client2))
       = [NewWebSocket 1 ''ws://host:8080/ws/sensor'', SetTimeout (Reconnect 1) 1500,
          NewWebSocket 1 ''ws://host:8080/ws/sensor'']
   \<and> \<not> shouldReconnect (handles client2c 0)
   \<and> Reconnect 0 \<notin> set (map cb (timers client2c))
   \<and> newEffects client2c (run [(400, Fired), (500, Closed 1), (2100, Fired)] client2c)
       = [NewWebSocket 1 ''ws://host:8080/ws/sensor'', SetTimeout (Reconnect 1) 1500,
          NewWebSocket 1 ''ws://host:8080/ws/sensor'']"
  by (simp add: client2c_def client_defs)

end
